theory Spec2Isabelle
  imports Complex_Main "HOL-Library.Sublist"
begin

section \<open>Watershed delineation: a model of \<open>criticidade_de_outorga.py\<close>\<close>

text \<open>
  The development embeds \<open>is_within_bounds\<close>, \<open>is_within_shape\<close>,
  \<open>gen_polygons_from_shape\<close> and \<open>find_basin_adaptado\<close>.

  Conventions of the embedding.
  \<^item> Python floats are real numbers extended by the two infinities and NaN; arithmetic on
    finite values is exact (binary64 rounding, overflow and the sign of zero are not
    represented).
  \<^item> Strings are ASCII character lists.
  \<^item> An attribute value of a record is a string, a float, an integer or \<open>None\<close>
    (the date and boolean values a shapefile reader can also produce are left out).
  \<^item> Exceptions are values: every function that can raise returns \<open>error + 'a\<close>.
  \<^item> The progress callback is represented by the list of the integers it is called with,
    in call order. A call without a callback installs a function that ignores its argument,
    so the same list describes what that function receives.
  \<^item> The geometry library is external. The objects that \<open>Polygon\<close>, \<open>buffer\<close> and
    \<open>cascaded_union\<close> build are uninterpreted terms of the type \<open>geometry\<close>.
    \<open>Polygon\<close> raises \<open>ValueError\<close> on a ring of one or two coordinates;
    \<open>buffer\<close> and \<open>cascaded_union\<close> are taken to return. The predicate
    \<open>Point.within\<close>, which decides control flow, is a parameter \<open>W\<close> of every function
    that calls it.
  \<^item> A shape read from the file has its parts and points and, unless it is a null shape, a
    bounding box; reading \<open>bbox\<close> of a null shape raises \<open>AttributeError\<close>.
\<close>

subsection \<open>Values and errors\<close>

datatype error = ValueError | TypeError | AttributeError | IndexError | OverflowError

datatype pyfloat = Fin real | PosInf | NegInf | NaN

datatype pyval = PStr string | PFloat pyfloat | PInt int | PNone

text \<open>Float addition \<open>a + b\<close>.\<close>

fun fadd :: "pyfloat \<Rightarrow> pyfloat \<Rightarrow> pyfloat" where
  "fadd (Fin a) (Fin b) = Fin (a + b)"
| "fadd NaN b = NaN"
| "fadd a NaN = NaN"
| "fadd PosInf NegInf = NaN"
| "fadd NegInf PosInf = NaN"
| "fadd PosInf b = PosInf"
| "fadd NegInf b = NegInf"
| "fadd (Fin a) PosInf = PosInf"
| "fadd (Fin a) NegInf = NegInf"

text \<open>Sequencing of computations that can raise.\<close>

definition bindE :: "error + 'a \<Rightarrow> ('a \<Rightarrow> error + 'b) \<Rightarrow> error + 'b" where
  "bindE m f = (case m of Inl e \<Rightarrow> Inl e | Inr v \<Rightarrow> f v)"

subsection \<open>The built-in string operations the code calls\<close>

definition is_space :: "char \<Rightarrow> bool" where
  "is_space c = (c \<in> set [CHR '' '', CHR 0x09, CHR 0x0A, CHR 0x0B, CHR 0x0C, CHR 0x0D])"

definition strip :: "string \<Rightarrow> string" where
  "strip s = rev (dropWhile is_space (rev (dropWhile is_space s)))"

definition is_digit :: "char \<Rightarrow> bool" where
  "is_digit c = (c \<in> set ''0123456789'')"

definition digit_val :: "char \<Rightarrow> nat" where
  "digit_val c = of_char c - 48"

text \<open>
  A digit part is a non-empty run of decimal digits in which single underscores may separate
  digits. \<open>digitpart prev acc s\<close> reads \<open>s\<close> to its end; \<open>prev\<close> says that the
  character before was a digit.
\<close>

fun digitpart :: "bool \<Rightarrow> nat \<Rightarrow> string \<Rightarrow> nat option" where
  "digitpart prev acc [] = (if prev then Some acc else None)"
| "digitpart prev acc (c # cs) =
     (if is_digit c then digitpart True (10 * acc + digit_val c) cs
      else if c = CHR ''_'' \<and> prev then digitpart False acc cs
      else None)"

definition count_digits :: "string \<Rightarrow> nat" where
  "count_digits s = length (filter is_digit s)"

text \<open>An optional sign: the factor and the rest of the string.\<close>

fun sign_of :: "string \<Rightarrow> int \<times> string" where
  "sign_of [] = (1, [])"
| "sign_of (c # cs) =
     (if c = CHR ''-'' then (-1, cs) else if c = CHR ''+'' then (1, cs) else (1, c # cs))"

text \<open>\<open>int(s)\<close> for a string, base ten; \<open>None\<close> stands for the \<open>ValueError\<close>.\<close>

definition py_int :: "string \<Rightarrow> int option" where
  "py_int s =
     (case sign_of (strip s) of (sg, body) \<Rightarrow>
        (case digitpart False 0 body of None \<Rightarrow> None | Some n \<Rightarrow> Some (sg * int n)))"

definition lower_char :: "char \<Rightarrow> char" where
  "lower_char c =
     (case map_of (zip ''ABCDEFGHIJKLMNOPQRSTUVWXYZ'' ''abcdefghijklmnopqrstuvwxyz'') c of
        None \<Rightarrow> c
      | Some l \<Rightarrow> l)"

definition lower :: "string \<Rightarrow> string" where
  "lower s = map lower_char s"

definition not_exp_mark :: "char \<Rightarrow> bool" where
  "not_exp_mark c = (c \<noteq> CHR ''e'' \<and> c \<noteq> CHR ''E'')"

definition not_dot :: "char \<Rightarrow> bool" where
  "not_dot c = (c \<noteq> CHR ''.'')"

text \<open>
  The mantissa \<open>digits [. [digits]]\<close> or \<open>. digits\<close> of a decimal literal, as a
  non-negative real.
\<close>

definition mantissa :: "string \<Rightarrow> real option" where
  "mantissa m =
     (let ip = takeWhile not_dot m; rest = dropWhile not_dot m in
      if rest = [] then map_option real (digitpart False 0 ip)
      else
        (let fp = tl rest;
             iv = (if ip = [] then Some 0 else digitpart False 0 ip);
             fv = (if fp = [] then Some 0 else digitpart False 0 fp)
         in if ip = [] \<and> fp = [] then None
            else (case (iv, fv) of
                    (Some i, Some f) \<Rightarrow> Some (real i + real f / 10 ^ count_digits fp)
                  | _ \<Rightarrow> None)))"

text \<open>The exponent \<open>[sign] digits\<close> that follows \<open>e\<close> or \<open>E\<close>.\<close>

definition exponent :: "string \<Rightarrow> int option" where
  "exponent s =
     (case sign_of s of (sg, body) \<Rightarrow>
        (case digitpart False 0 body of None \<Rightarrow> None | Some n \<Rightarrow> Some (sg * int n)))"

definition pow10 :: "int \<Rightarrow> real" where
  "pow10 k = (if 0 \<le> k then 10 ^ nat k else 1 / 10 ^ nat (- k))"

text \<open>\<open>float(s)\<close> for a string; \<open>None\<close> stands for the \<open>ValueError\<close>.\<close>

definition py_float :: "string \<Rightarrow> pyfloat option" where
  "py_float s =
     (case sign_of (strip s) of (sg, body) \<Rightarrow>
        if lower body = ''inf'' \<or> lower body = ''infinity''
          then Some (if sg < 0 then NegInf else PosInf)
        else if lower body = ''nan'' then Some NaN
        else
          (let m = takeWhile not_exp_mark body; rest = dropWhile not_exp_mark body in
           case mantissa m of
             None \<Rightarrow> None
           | Some v \<Rightarrow>
               if rest = [] then Some (Fin (real_of_int sg * v))
               else (case exponent (tl rest) of
                       None \<Rightarrow> None
                     | Some k \<Rightarrow> Some (Fin (real_of_int sg * v * pow10 k)))))"

text \<open>\<open>s.replace(',', '.')\<close>\<close>

definition replace_comma :: "string \<Rightarrow> string" where
  "replace_comma s = map (\<lambda>c. if c = CHR '','' then CHR ''.'' else c) s"

text \<open>\<open>s.ljust(n, '0')\<close>\<close>

definition ljust0 :: "string \<Rightarrow> nat \<Rightarrow> string" where
  "ljust0 s n = s @ replicate (n - length s) (CHR ''0'')"

text \<open>\<open>xs.index(v)\<close>: the first position of \<open>v\<close>, or a \<open>ValueError\<close>.\<close>

fun index_of :: "'a list \<Rightarrow> 'a \<Rightarrow> error + nat" where
  "index_of [] v = Inl ValueError"
| "index_of (x # xs) v =
     (if x = v then Inr 0 else (case index_of xs v of Inl e \<Rightarrow> Inl e | Inr i \<Rightarrow> Inr (Suc i)))"

text \<open>\<open>xs[i]\<close> for a non-negative index.\<close>

definition item :: "'a list \<Rightarrow> nat \<Rightarrow> error + 'a" where
  "item xs i = (if i < length xs then Inr (xs ! i) else Inl IndexError)"

text \<open>\<open>int(v)\<close> and \<open>len(v)\<close> for an attribute value.\<close>

fun int_of_val :: "pyval \<Rightarrow> error + int" where
  "int_of_val (PStr s) = (case py_int s of None \<Rightarrow> Inl ValueError | Some n \<Rightarrow> Inr n)"
| "int_of_val (PInt n) = Inr n"
| "int_of_val (PFloat (Fin r)) = Inr (if 0 \<le> r then \<lfloor>r\<rfloor> else \<lceil>r\<rceil>)"
| "int_of_val (PFloat NaN) = Inl ValueError"
| "int_of_val (PFloat PosInf) = Inl OverflowError"
| "int_of_val (PFloat NegInf) = Inl OverflowError"
| "int_of_val PNone = Inl TypeError"

fun len_of_val :: "pyval \<Rightarrow> error + nat" where
  "len_of_val (PStr s) = Inr (length s)"
| "len_of_val v = Inl TypeError"

subsection \<open>Shapes\<close>

type_synonym coord = "real \<times> real"

datatype point = Point (point_x: real) (point_y: real)

datatype geometry = Polygon "coord list" | Buffer geometry real | CascadedUnion "geometry list"

record shape =
  bbox :: "(real \<times> real \<times> real \<times> real) option"
  parts :: "nat list"
  points :: "coord list"

record shape_record =
  sr_shape :: shape
  sr_record :: "pyval list"

text \<open>
  The reader: the field descriptors by name (the first one is the deletion flag) and the
  shape records in file order. \<open>len(shp)\<close> is the number of shape records.
\<close>

record reader =
  rd_fields :: "string list"
  rd_records :: "shape_record list"

text \<open>\<open>xs[a:b]\<close> for non-negative bounds.\<close>

definition slice :: "'a list \<Rightarrow> nat \<Rightarrow> nat \<Rightarrow> 'a list" where
  "slice xs a b = take (b - a) (drop a xs)"

text \<open>
  \<open>Polygon(ring)\<close>: the library refuses a ring of one or two coordinates; an empty ring
  gives the empty polygon.
\<close>

definition new_Polygon :: "coord list \<Rightarrow> error + geometry" where
  "new_Polygon ring =
     (if length ring = 1 \<or> length ring = 2 then Inl ValueError else Inr (Polygon ring))"

text \<open>
  The generator yields its polygons one at a time, so each element of the list is the outcome
  of building one polygon: the consumer meets an exception when it asks for that element.
\<close>

definition gen_polygons_from_shape :: "shape \<Rightarrow> (error + geometry) list" where
  "gen_polygons_from_shape sh =
     (let offset_parts = drop 1 (parts sh) @ [length (points sh)]
      in map (\<lambda>(part_start, part_end). new_Polygon (slice (points sh) part_start part_end))
             (zip (parts sh) offset_parts))"

fun is_within_bounds :: "point \<Rightarrow> real \<times> real \<times> real \<times> real \<Rightarrow> bool" where
  "is_within_bounds pt (x1, y1, x2, y2) =
     ((x1 \<le> point_x pt \<and> point_x pt \<le> x2) \<and> (y1 \<le> point_y pt \<and> point_y pt \<le> y2))"

text \<open>The loop of \<open>is_within_shape\<close> over the generated polygons.\<close>

fun any_part_within :: "(point \<Rightarrow> geometry \<Rightarrow> bool) \<Rightarrow> point \<Rightarrow> (error + geometry) list
                        \<Rightarrow> error + bool" where
  "any_part_within W pt [] = Inr False"
| "any_part_within W pt (Inl e # polys) = Inl e"
| "any_part_within W pt (Inr poly # polys) =
     (if W pt poly then Inr True else any_part_within W pt polys)"

definition is_within_shape :: "(point \<Rightarrow> geometry \<Rightarrow> bool) \<Rightarrow> point \<Rightarrow> shape \<Rightarrow> error + bool" where
  "is_within_shape W pt sh =
     (case bbox sh of
        None \<Rightarrow> Inl AttributeError
      | Some bounding_box \<Rightarrow>
          if \<not> is_within_bounds pt bounding_box then Inr False
          else any_part_within W pt (gen_polygons_from_shape sh))"

subsection \<open>Progress reporting\<close>

record pstate =
  current_progress :: int
  calls :: "int list"

text \<open>
  The three lines that follow the computation of \<open>progress\<close> in both loops: when the
  counter is behind, it is advanced by one and the callback is called with it.
\<close>

definition report :: "int \<Rightarrow> pstate \<Rightarrow> pstate" where
  "report progress st =
     (if current_progress st < progress
      then st\<lparr>current_progress := current_progress st + 1,
              calls := calls st @ [current_progress st + 1]\<rparr>
      else st)"

subsection \<open>First pass: the search for the seed\<close>

text \<open>
  \<open>find_seed W pt feature_count i srs st\<close> is the first loop from index \<open>i\<close> on, over
  the remaining shape records \<open>srs\<close>. \<open>Inr (Some sr)\<close> is the \<open>break\<close> at \<open>sr\<close>,
  \<open>Inr None\<close> the \<open>else\<close> branch of the loop, \<open>Inl e\<close> an exception of the
  containment test; the progress state is the one reached when the loop is left.
\<close>

fun find_seed :: "(point \<Rightarrow> geometry \<Rightarrow> bool) \<Rightarrow> point \<Rightarrow> nat \<Rightarrow> nat \<Rightarrow> shape_record list
                  \<Rightarrow> pstate \<Rightarrow> pstate \<times> (error + shape_record option)" where
  "find_seed W pt feature_count i [] st = (st, Inr None)"
| "find_seed W pt feature_count i (sr # srs) st =
     (case is_within_shape W pt (sr_shape sr) of
        Inl e \<Rightarrow> (st, Inl e)
      | Inr inside \<Rightarrow>
          if inside then (st, Inr (Some sr))
          else find_seed W pt feature_count (i + 1) srs
                 (report ((int (i + 1) * 50) div int feature_count) st))"

subsection \<open>What is kept of the seed\<close>

record seed =
  reach_index :: nat
  basin_index :: nat
  area_index :: "nat option"
  selected_reach :: pyval
  selected_basin_int :: int
  selected_basin_length :: nat

definition seed_of :: "string list \<Rightarrow> string \<Rightarrow> string \<Rightarrow> string option \<Rightarrow> shape_record
                       \<Rightarrow> error + seed" where
  "seed_of field_names reach_field basin_field area_field sr =
     bindE (index_of field_names reach_field) (\<lambda>ri.
     bindE (index_of field_names basin_field) (\<lambda>bi.
     bindE (case area_field of
              None \<Rightarrow> Inr None
            | Some af \<Rightarrow> bindE (index_of field_names af) (\<lambda>ai.
                         bindE (item (sr_record sr) ai) (\<lambda>selected_area. Inr (Some ai)))) (\<lambda>ai.
     bindE (item (sr_record sr) ri) (\<lambda>sel_reach.
     bindE (item (sr_record sr) bi) (\<lambda>sel_basin.
     bindE (int_of_val sel_basin) (\<lambda>sel_basin_int.
     bindE (len_of_val sel_basin) (\<lambda>sel_basin_length.
       Inr \<lparr>reach_index = ri, basin_index = bi, area_index = ai,
            selected_reach = sel_reach, selected_basin_int = sel_basin_int,
            selected_basin_length = sel_basin_length\<rparr>)))))))"

subsection \<open>Second pass: matching and aggregation\<close>

text \<open>\<open>reach.startswith(selected_reach)\<close>\<close>

fun startswith :: "pyval \<Rightarrow> pyval \<Rightarrow> error + bool" where
  "startswith (PStr reach) (PStr sel) = Inr (prefix sel reach)"
| "startswith (PStr reach) sel = Inl TypeError"
| "startswith reach sel = Inl AttributeError"

text \<open>\<open>v[:n].ljust(n, '0')\<close>\<close>

fun normalize_basin :: "pyval \<Rightarrow> nat \<Rightarrow> error + string" where
  "normalize_basin (PStr b) n = Inr (ljust0 (take n b) n)"
| "normalize_basin v n = Inl TypeError"

text \<open>
  The two conditions of the second loop on one record: \<open>Inr True\<close> when the body that
  collects the polygons is entered.
\<close>

definition matches :: "seed \<Rightarrow> pyval list \<Rightarrow> error + bool" where
  "matches sd rec =
     bindE (item rec (reach_index sd)) (\<lambda>reach.
     bindE (startswith reach (selected_reach sd)) (\<lambda>starts.
       if starts then
         bindE (item rec (basin_index sd)) (\<lambda>b.
         bindE (normalize_basin b (selected_basin_length sd)) (\<lambda>basin.
           case py_int basin of
             None \<Rightarrow> Inl ValueError
           | Some basin_int \<Rightarrow> Inr (basin_int \<ge> selected_basin_int sd)))
       else Inr False))"

text \<open>
  The body of the \<open>try\<close>: \<open>area += float(v.replace(',', '.'))\<close>. A value that is not a
  string has no \<open>replace\<close>.
\<close>

fun try_add_area :: "pyfloat \<Rightarrow> pyval \<Rightarrow> error + pyfloat" where
  "try_add_area area (PStr s) =
     (case py_float (replace_comma s) of
        None \<Rightarrow> Inl ValueError
      | Some f \<Rightarrow> Inr (fadd area f))"
| "try_add_area area v = Inl AttributeError"

text \<open>The body of the handler: \<open>area += v\<close>.\<close>

fun add_raw_area :: "pyfloat \<Rightarrow> pyval \<Rightarrow> error + pyfloat" where
  "add_raw_area area (PFloat f) = Inr (fadd area f)"
| "add_raw_area area (PInt n) = Inr (fadd area (Fin (real_of_int n)))"
| "add_raw_area area v = Inl TypeError"

text \<open>The whole \<open>try\<close> statement for the record values \<open>rec\<close> and the area index.\<close>

definition add_area :: "pyfloat \<Rightarrow> pyval list \<Rightarrow> nat \<Rightarrow> error + pyfloat" where
  "add_area area rec ai =
     (case item rec ai of
        Inl e \<Rightarrow> Inl e
      | Inr v \<Rightarrow>
          (case try_add_area area v of
             Inl AttributeError \<Rightarrow> add_raw_area area v
           | r \<Rightarrow> r))"

text \<open>The inner loop over the polygons of one matched record.\<close>

fun add_parts :: "nat option \<Rightarrow> pyval list \<Rightarrow> (error + geometry) list
                  \<Rightarrow> geometry list \<times> pyfloat \<Rightarrow> error + geometry list \<times> pyfloat" where
  "add_parts ai rec [] acc = Inr acc"
| "add_parts ai rec (Inl e # polys) acc = Inl e"
| "add_parts ai rec (Inr poly # polys) (basin_polygons, area) =
     (case ai of
        None \<Rightarrow> add_parts ai rec polys (basin_polygons @ [Buffer poly 0], area)
      | Some k \<Rightarrow>
          (case add_area area rec k of
             Inl e \<Rightarrow> Inl e
           | Inr area' \<Rightarrow> add_parts ai rec polys (basin_polygons @ [Buffer poly 0], area')))"

text \<open>One record of the second loop, before its progress report.\<close>

definition visit :: "seed \<Rightarrow> shape_record \<Rightarrow> geometry list \<times> pyfloat
                     \<Rightarrow> error + geometry list \<times> pyfloat" where
  "visit sd sr acc =
     bindE (matches sd (sr_record sr)) (\<lambda>m.
       if m then add_parts (area_index sd) (sr_record sr) (gen_polygons_from_shape (sr_shape sr)) acc
       else Inr acc)"

text \<open>
  \<open>aggregate sd feature_count i srs acc st\<close> is the second loop from index \<open>i\<close> on. An
  exception leaves the loop with the progress state reached before it.
\<close>

fun aggregate :: "seed \<Rightarrow> nat \<Rightarrow> nat \<Rightarrow> shape_record list \<Rightarrow> geometry list \<times> pyfloat \<Rightarrow> pstate
                  \<Rightarrow> pstate \<times> (error + geometry list \<times> pyfloat)" where
  "aggregate sd feature_count i [] acc st = (st, Inr acc)"
| "aggregate sd feature_count i (sr # srs) acc st =
     (case visit sd sr acc of
        Inl e \<Rightarrow> (st, Inl e)
      | Inr acc' \<Rightarrow>
          aggregate sd feature_count (i + 1) srs acc'
            (report (50 + (int (i + 1) * 50) div int feature_count) st))"

subsection \<open>The delineation\<close>

text \<open>The values \<open>find_basin_adaptado\<close> returns.\<close>

datatype retval =
    Ret_None
  | Ret_None_None
  | Ret_Union geometry
  | Ret_Union_Area geometry pyfloat
  | Ret_Union_Area_Reach geometry pyfloat pyval

text \<open>
  The result of a call is the list of the values the callback received and either the
  exception raised or the value returned. The reader stands for the shapefile at
  \<open>shapefile_path\<close>, which both passes open and read in the same order.
\<close>

definition find_basin_adaptado ::
  "(point \<Rightarrow> geometry \<Rightarrow> bool) \<Rightarrow> reader \<Rightarrow> string \<Rightarrow> string \<Rightarrow> real \<Rightarrow> real \<Rightarrow> string option \<Rightarrow> bool
     \<Rightarrow> int list \<times> (error + retval)" where
  "find_basin_adaptado W shp reach_field basin_field x y area_field return_reach =
     (let pt = Point x y;
          st0 = \<lparr>current_progress = 0, calls = []\<rparr>;
          field_names = drop 1 (rd_fields shp);
          feature_count = length (rd_records shp)
      in case find_seed W pt feature_count 0 (rd_records shp) st0 of
           (st, Inl e) \<Rightarrow> (calls st, Inl e)
         | (st, Inr None) \<Rightarrow>
             (calls st @ [100],
              Inr (if area_field \<noteq> None then Ret_None_None else Ret_None))
         | (st, Inr (Some sr)) \<Rightarrow>
             (case seed_of field_names reach_field basin_field area_field sr of
                Inl e \<Rightarrow> (calls st, Inl e)
              | Inr sd \<Rightarrow>
                  (case aggregate sd feature_count 0 (rd_records shp) ([], Fin 0) st of
                     (st', Inl e) \<Rightarrow> (calls st', Inl e)
                   | (st', Inr (basin_polygons, area)) \<Rightarrow>
                       (calls st',
                        Inr (if area_field \<noteq> None \<and> return_reach
                               then Ret_Union_Area_Reach (CascadedUnion basin_polygons) area
                                      (selected_reach sd)
                             else if area_field \<noteq> None
                               then Ret_Union_Area (CascadedUnion basin_polygons) area
                             else Ret_Union (CascadedUnion basin_polygons))))))"

subsection \<open>An instance of the containment predicate, and example layers\<close>

text \<open>
  The examples below need one concrete predicate in the place of \<open>W\<close>. \<open>within_even_odd\<close>
  is the even-odd rule on the ring of a polygon, closed when its last coordinate is not its
  first: the point is on no edge of the ring, and a ray from the point towards larger \<open>x\<close>
  crosses an odd number of edges.
\<close>

definition on_segment :: "point \<Rightarrow> coord \<Rightarrow> coord \<Rightarrow> bool" where
  "on_segment pt a b =
     ((fst b - fst a) * (point_y pt - snd a) = (snd b - snd a) * (point_x pt - fst a) \<and>
      min (fst a) (fst b) \<le> point_x pt \<and> point_x pt \<le> max (fst a) (fst b) \<and>
      min (snd a) (snd b) \<le> point_y pt \<and> point_y pt \<le> max (snd a) (snd b))"

text \<open>The point lies on an edge between two consecutive coordinates of the ring.\<close>

fun on_ring :: "point \<Rightarrow> coord list \<Rightarrow> bool" where
  "on_ring pt (a # b # ring) = (on_segment pt a b \<or> on_ring pt (b # ring))"
| "on_ring pt ring = False"

definition edge_crosses :: "point \<Rightarrow> coord \<Rightarrow> coord \<Rightarrow> bool" where
  "edge_crosses pt a b =
     ((point_y pt < snd a) \<noteq> (point_y pt < snd b) \<and>
      point_x pt < fst a + (point_y pt - snd a) * (fst b - fst a) / (snd b - snd a))"

fun crossing_number :: "point \<Rightarrow> coord list \<Rightarrow> nat" where
  "crossing_number pt (a # b # ring) =
     (if edge_crosses pt a b then 1 else 0) + crossing_number pt (b # ring)"
| "crossing_number pt ring = 0"

definition close_ring :: "coord list \<Rightarrow> coord list" where
  "close_ring ring = (if ring \<noteq> [] \<and> hd ring \<noteq> last ring then ring @ [hd ring] else ring)"

fun within_even_odd :: "point \<Rightarrow> geometry \<Rightarrow> bool" where
  "within_even_odd pt (Polygon ring) =
     (\<not> on_ring pt (close_ring ring) \<and> odd (crossing_number pt (close_ring ring)))"
| "within_even_odd pt g = False"

text \<open>The square with corners \<open>(x0, y0)\<close> and \<open>(x0 + 1, y0 + 1)\<close>, as a closed ring.\<close>

definition square_ring :: "real \<Rightarrow> real \<Rightarrow> coord list" where
  "square_ring x0 y0 = [(x0, y0), (x0, y0 + 1), (x0 + 1, y0 + 1), (x0 + 1, y0), (x0, y0)]"

definition layer_fields :: "string list" where
  "layer_fields = [''DeletionFlag'', ''cocursodag'', ''cobacia'', ''nuareacont'']"

text \<open>A record with one part: the unit square at the origin.\<close>

definition unit_record :: "pyval list \<Rightarrow> shape_record" where
  "unit_record vs =
     \<lparr>sr_shape = \<lparr>bbox = Some (0, 0, 1, 1), parts = [0], points = square_ring 0 0\<rparr>,
      sr_record = vs\<rparr>"

text \<open>A record with two parts: the unit square at the origin and the unit square at \<open>(2, 0)\<close>.\<close>

definition two_part_record :: "pyval list \<Rightarrow> shape_record" where
  "two_part_record vs =
     \<lparr>sr_shape = \<lparr>bbox = Some (0, 0, 3, 1), parts = [0, 5],
                  points = square_ring 0 0 @ square_ring 2 0\<rparr>,
      sr_record = vs\<rparr>"

text \<open>A record with one part: the unit square at \<open>(1, 0)\<close>.\<close>

definition east_record :: "pyval list \<Rightarrow> shape_record" where
  "east_record vs =
     \<lparr>sr_shape = \<lparr>bbox = Some (1, 0, 2, 1), parts = [0], points = square_ring 1 0\<rparr>,
      sr_record = vs\<rparr>"

text \<open>A record whose shape is a null shape: no bounding box, no part, no point.\<close>

definition null_record :: "pyval list \<Rightarrow> shape_record" where
  "null_record vs = \<lparr>sr_shape = \<lparr>bbox = None, parts = [], points = []\<rparr>, sr_record = vs\<rparr>"

text \<open>
  A record in the box of the unit square whose shape has two parts: a single coordinate, and
  the unit square at the origin.
\<close>

definition stray_point_record :: "pyval list \<Rightarrow> shape_record" where
  "stray_point_record vs =
     \<lparr>sr_shape = \<lparr>bbox = Some (0, 0, 1, 1), parts = [0, 1],
                  points = (0, 0) # square_ring 0 0\<rparr>,
      sr_record = vs\<rparr>"

text \<open>A record whose shape has one part of a single coordinate, the origin.\<close>

definition single_point_record :: "pyval list \<Rightarrow> shape_record" where
  "single_point_record vs =
     \<lparr>sr_shape = \<lparr>bbox = Some (0, 0, 0, 0), parts = [0], points = [(0, 0)]\<rparr>,
      sr_record = vs\<rparr>"

definition layer :: "shape_record list \<Rightarrow> reader" where
  "layer srs = \<lparr>rd_fields = layer_fields, rd_records = srs\<rparr>"

subsection \<open>The normalisation of a basin code, in the words of the specification\<close>

text \<open>
  A candidate basin code is brought to the length \<open>L\<close> of the seed's code: a longer one is
  cut to its first \<open>L\<close> characters, a shorter one is padded on the right with \<open>0\<close>.
\<close>

definition spec_normalize :: "string \<Rightarrow> nat \<Rightarrow> string" where
  "spec_normalize b L =
     (if length b > L then take L b
      else if length b < L then b @ replicate (L - length b) (CHR ''0'')
      else b)"

subsection \<open>The parts of a shape, in the words of the specification\<close>

text \<open>
  Part \<open>j\<close> of a shape is the ring of the coordinates from its offset up to the next offset,
  or up to the end of the coordinate sequence for the last part.
\<close>

definition part_end :: "shape \<Rightarrow> nat \<Rightarrow> nat" where
  "part_end sh j = (if Suc j < length (parts sh) then parts sh ! Suc j else length (points sh))"

definition part_ring :: "shape \<Rightarrow> nat \<Rightarrow> coord list" where
  "part_ring sh j =
     map (\<lambda>k. points sh ! k) [parts sh ! j ..< min (part_end sh j) (length (points sh))]"

text \<open>A ring that \<open>Polygon\<close> accepts.\<close>

definition ring_accepted :: "coord list \<Rightarrow> bool" where
  "ring_accepted ring = (length ring \<noteq> 1 \<and> length ring \<noteq> 2)"

section \<open>Properties\<close>

subsection \<open>Definitions unfolded when a call is evaluated on an example\<close>

lemma replicate_numeral: "replicate (numeral k) x = x # replicate (pred_numeral k) x"
  by (simp add: numeral_eq_Suc)

lemmas str_defs = strip_def is_space_def is_digit_def digit_val_def py_int_def py_float_def
  lower_def lower_char_def not_exp_mark_def not_dot_def mantissa_def exponent_def pow10_def
  count_digits_def replace_comma_def ljust0_def

lemmas geo_defs = gen_polygons_from_shape_def new_Polygon_def slice_def is_within_shape_def
  edge_crosses_def on_segment_def close_ring_def square_ring_def unit_record_def
  two_part_record_def east_record_def null_record_def stray_point_record_def
  single_point_record_def layer_def layer_fields_def

lemmas run_defs = find_basin_adaptado_def seed_of_def matches_def visit_def add_area_def
  report_def bindE_def item_def

subsection \<open>The progress values\<close>

lemma report_sorted:
  assumes "sorted_wrt (<) (calls st)" and "\<forall>v\<in>set (calls st). v \<le> current_progress st"
  shows "sorted_wrt (<) (calls (report p st)) \<and>
         (\<forall>v\<in>set (calls (report p st)). v \<le> current_progress (report p st))"
  using assms by (auto simp: report_def sorted_wrt_append)

lemma report_bound:
  "current_progress st \<le> b \<Longrightarrow> p \<le> b \<Longrightarrow> current_progress (report p st) \<le> b"
  by (simp add: report_def)

lemma find_seed_sorted:
  assumes "sorted_wrt (<) (calls st)" and "\<forall>v\<in>set (calls st). v \<le> current_progress st"
  shows "sorted_wrt (<) (calls (fst (find_seed W pt n i srs st))) \<and>
         (\<forall>v\<in>set (calls (fst (find_seed W pt n i srs st))).
             v \<le> current_progress (fst (find_seed W pt n i srs st)))"
  using assms
proof (induction srs arbitrary: i st)
  case Nil
  then show ?case by simp
next
  case (Cons sr srs)
  show ?case
  proof (cases "is_within_shape W pt (sr_shape sr) = Inr False")
    case False
    then have "fst (find_seed W pt n i (sr # srs) st) = st"
      by (cases "is_within_shape W pt (sr_shape sr)") auto
    with Cons.prems show ?thesis by simp
  next
    case True
    from report_sorted [OF Cons.prems]
    have "sorted_wrt (<) (calls (report ((int (i + 1) * 50) div int n) st))"
      and "\<forall>v\<in>set (calls (report ((int (i + 1) * 50) div int n) st)).
              v \<le> current_progress (report ((int (i + 1) * 50) div int n) st)"
      by blast+
    from Cons.IH [OF this] True show ?thesis by simp
  qed
qed

lemma first_pass_progress_le: "i < n \<Longrightarrow> (int (i + 1) * 50) div int n \<le> 50"
proof -
  assume "i < n"
  then have "int (i + 1) * 50 \<le> 50 * int n" by simp
  moreover have "0 < int n" using \<open>i < n\<close> by simp
  ultimately show ?thesis
  proof -
    assume le: "int (i + 1) * 50 \<le> 50 * int n" and pos: "0 < int n"
    have "(int (i + 1) * 50) div int n \<le> (50 * int n) div int n"
      using le pos by (rule zdiv_mono1)
    with pos show ?thesis by simp
  qed
qed

lemma find_seed_bound:
  "i + length srs \<le> n \<Longrightarrow> current_progress st \<le> 50 \<Longrightarrow>
   current_progress (fst (find_seed W pt n i srs st)) \<le> 50"
proof (induction srs arbitrary: i st)
  case Nil
  then show ?case by simp
next
  case (Cons sr srs)
  show ?case
  proof (cases "is_within_shape W pt (sr_shape sr) = Inr False")
    case False
    then have "fst (find_seed W pt n i (sr # srs) st) = st"
      by (cases "is_within_shape W pt (sr_shape sr)") auto
    with Cons.prems show ?thesis by simp
  next
    case True
    from Cons.prems have "i < n" by simp
    then have "current_progress (report ((int (i + 1) * 50) div int n) st) \<le> 50"
      using Cons.prems(2) by (intro report_bound first_pass_progress_le)
    moreover from Cons.prems have "(i + 1) + length srs \<le> n" by simp
    ultimately show ?thesis using Cons.IH True by simp
  qed
qed

lemma aggregate_sorted:
  assumes "sorted_wrt (<) (calls st)" and "\<forall>v\<in>set (calls st). v \<le> current_progress st"
  shows "sorted_wrt (<) (calls (fst (aggregate sd n i srs acc st)))"
  using assms
proof (induction srs arbitrary: i st acc)
  case Nil
  then show ?case by simp
next
  case (Cons sr srs)
  show ?case
  proof (cases "visit sd sr acc")
    case (Inl e)
    with Cons.prems show ?thesis by simp
  next
    case (Inr acc')
    from report_sorted [OF Cons.prems]
    have "sorted_wrt (<) (calls (report (50 + (int (i + 1) * 50) div int n) st))"
      and "\<forall>v\<in>set (calls (report (50 + (int (i + 1) * 50) div int n) st)).
              v \<le> current_progress (report (50 + (int (i + 1) * 50) div int n) st)"
      by blast+
    from Cons.IH [OF this] Inr show ?thesis by simp
  qed
qed

text \<open>
  Claim C7. Within one call of \<open>find_basin_adaptado\<close> the values passed to the progress
  callback are strictly increasing: no value is less than or equal to one reported before it.
  This holds for every call, also one that ends in an exception.
\<close>

theorem progress_strictly_increasing:
  "sorted_wrt (<)
     (fst (find_basin_adaptado W shp reach_field basin_field x y area_field return_reach))"
proof -
  let ?st0 = "\<lparr>current_progress = 0, calls = []\<rparr>"
  let ?n = "length (rd_records shp)"
  obtain st res where r: "find_seed W (Point x y) ?n 0 (rd_records shp) ?st0 = (st, res)"
    by (cases "find_seed W (Point x y) ?n 0 (rd_records shp) ?st0")
  have s0: "sorted_wrt (<) (calls ?st0)" "\<forall>v\<in>set (calls ?st0). v \<le> current_progress ?st0"
    by simp_all
  from find_seed_sorted [OF s0, of W "Point x y" ?n 0 "rd_records shp"] r
  have s1: "sorted_wrt (<) (calls st)"
    and s2: "\<forall>v\<in>set (calls st). v \<le> current_progress st"
    by simp_all
  have "current_progress (fst (find_seed W (Point x y) ?n 0 (rd_records shp) ?st0)) \<le> 50"
    by (rule find_seed_bound) simp_all
  with r have b: "current_progress st \<le> 50" by simp
  show ?thesis
  proof (cases res)
    case (Inl e)
    with r s1 show ?thesis by (simp add: find_basin_adaptado_def)
  next
    case found: (Inr found)
    show ?thesis
    proof (cases found)
      case None
      with r found
      have "fst (find_basin_adaptado W shp reach_field basin_field x y area_field return_reach)
              = calls st @ [100]"
        by (simp add: find_basin_adaptado_def)
      moreover have "\<forall>v\<in>set (calls st). v < 100" using s2 b by fastforce
      ultimately show ?thesis using s1 by (simp add: sorted_wrt_append)
    next
      case (Some sr)
      show ?thesis
      proof (cases "seed_of (drop 1 (rd_fields shp)) reach_field basin_field area_field sr")
        case (Inl e)
        with Some found r s1 show ?thesis
          by (simp add: find_basin_adaptado_def)
      next
        case (Inr sd)
        obtain st' out where a: "aggregate sd ?n 0 (rd_records shp) ([], Fin 0) st = (st', out)"
          by (cases "aggregate sd ?n 0 (rd_records shp) ([], Fin 0) st")
        from aggregate_sorted [OF s1 s2, of sd ?n 0 "rd_records shp" "([], Fin 0)"] a
        have "sorted_wrt (<) (calls st')" by simp
        with Some found Inr r a show ?thesis
          by (cases out) (simp_all add: find_basin_adaptado_def split: prod.splits)
      qed
    qed
  qed
qed

theorem progress_strictly_increasing_witness:
  "sorted_wrt (<)
     (fst (find_basin_adaptado within_even_odd
             (layer [unit_record [PStr ''10'', PStr ''100'', PStr ''1,0'']])
             ''cocursodag'' ''cobacia'' 5 5 None False))"
  by (rule progress_strictly_increasing)

subsection \<open>Containment\<close>






lemma part_rings_nth:
  "j < length (parts sh) \<Longrightarrow> map (part_ring sh) [0 ..< length (parts sh)] ! j = part_ring sh j"
  by simp




lemmas part_defs = part_ring_def part_end_def ring_accepted_def



subsection \<open>The search for the seed\<close>

lemma find_seed_first:
  "snd (find_seed W pt n i srs st) =
     (case find (\<lambda>sr. is_within_shape W pt (sr_shape sr) \<noteq> Inr False) srs of
        None \<Rightarrow> Inr None
      | Some s \<Rightarrow>
          (case is_within_shape W pt (sr_shape s) of
             Inl e \<Rightarrow> Inl e
           | Inr inside \<Rightarrow> Inr (Some s)))"
proof (induction srs arbitrary: i st)
  case Nil
  show ?case by simp
next
  case (Cons sr srs)
  show ?case
  proof (cases "is_within_shape W pt (sr_shape sr)")
    case (Inl e)
    then show ?thesis by simp
  next
    case (Inr inside)
    with Cons.IH show ?thesis by (cases inside) simp_all
  qed
qed

lemma find_seed_chosen:
  "snd (find_seed W pt n i srs st) = Inr (Some s) \<Longrightarrow>
   find (\<lambda>sr. is_within_shape W pt (sr_shape sr) = Inr True) srs = Some s"
proof (induction srs arbitrary: i st)
  case Nil
  then show ?case by simp
next
  case (Cons sr srs)
  show ?case
  proof (cases "is_within_shape W pt (sr_shape sr)")
    case (Inl e)
    with Cons.prems show ?thesis by simp
  next
    case (Inr inside)
    with Cons show ?thesis by (cases inside) simp_all
  qed
qed

lemma find_seed_stops:
  "is_within_shape W pt (sr_shape s) \<noteq> Inr False \<Longrightarrow>
   find_seed W pt n i (pre @ s # post) st = find_seed W pt n i (pre @ [s]) st"
proof (induction pre arbitrary: i st)
  case Nil
  then show ?case
    by (cases "is_within_shape W pt (sr_shape s)") (auto split: if_splits)
next
  case (Cons sr pre)
  then show ?case
    by (cases "is_within_shape W pt (sr_shape sr)") auto
qed

text \<open>
  Claim C5. A seed that the first loop leaves in \<open>sr\<close> is the first shape record, in
  iteration order, for which \<open>is_within_shape\<close> returns true. The loop runs to the first
  record on which the test does not return false: it chooses that record when the test returns
  true and leaves with the exception when the test raises; it chooses none when there is no such
  record. The loop stops there: its outcome, with the progress reported, is the one of the same
  scan over a sequence that ends at that record.
\<close>

theorem seed_is_first_containing:
  "(snd (find_seed W pt n i srs st) = Inr (Some s) \<longrightarrow>
      find (\<lambda>sr. is_within_shape W pt (sr_shape sr) = Inr True) srs = Some s)
   \<and> snd (find_seed W pt n i srs st) =
       (case find (\<lambda>sr. is_within_shape W pt (sr_shape sr) \<noteq> Inr False) srs of
          None \<Rightarrow> Inr None
        | Some s \<Rightarrow>
            (case is_within_shape W pt (sr_shape s) of
               Inl e \<Rightarrow> Inl e
             | Inr inside \<Rightarrow> Inr (Some s)))
   \<and> (is_within_shape W pt (sr_shape t) \<noteq> Inr False \<longrightarrow>
        find_seed W pt n i (pre @ t # post) st = find_seed W pt n i (pre @ [t]) st)"
  using find_seed_chosen [of W pt n i srs st s] find_seed_first [of W pt n i srs st]
        find_seed_stops [of W pt t n i pre post st]
  by blast

theorem seed_is_first_containing_witness:
  "snd (find_seed within_even_odd (Point (3/2) (1/2)) 3 0
          [unit_record [], east_record [PStr ''a''], east_record [PStr ''b'']]
          \<lparr>current_progress = 0, calls = []\<rparr>) = Inr (Some (east_record [PStr ''a'']))
   \<and> find (\<lambda>sr. is_within_shape within_even_odd (Point (3/2) (1/2)) (sr_shape sr) = Inr True)
        [unit_record [], east_record [PStr ''a''], east_record [PStr ''b'']]
      = Some (east_record [PStr ''a''])
   \<and> is_within_shape within_even_odd (Point (3/2) (1/2)) (sr_shape (east_record [PStr ''a'']))
        \<noteq> Inr False
   \<and> find_seed within_even_odd (Point (3/2) (1/2)) 3 0
        ([unit_record []] @ east_record [PStr ''a''] # [east_record [PStr ''b'']])
        \<lparr>current_progress = 0, calls = []\<rparr>
      = (\<lparr>current_progress = 1, calls = [1]\<rparr>, Inr (Some (east_record [PStr ''a''])))"
proof -
  let ?srs = "[unit_record [], east_record [PStr ''a''], east_record [PStr ''b'']]"
  let ?st = "\<lparr>current_progress = 0, calls = []\<rparr>"
  have h: "is_within_shape within_even_odd (Point (3/2) (1/2)) (sr_shape (east_record [PStr ''a'']))
             \<noteq> Inr False"
    by (simp add: geo_defs)
  have s: "snd (find_seed within_even_odd (Point (3/2) (1/2)) 3 0 ?srs ?st)
             = Inr (Some (east_record [PStr ''a'']))"
    by (simp add: geo_defs report_def)
  have e: "find_seed within_even_odd (Point (3/2) (1/2)) 3 0
             ([unit_record []] @ [east_record [PStr ''a'']]) ?st
           = (\<lparr>current_progress = 1, calls = [1]\<rparr>, Inr (Some (east_record [PStr ''a''])))"
    by (simp add: geo_defs report_def)
  note t = seed_is_first_containing
         [of within_even_odd "Point (3/2) (1/2)" 3 0 ?srs ?st "east_record [PStr ''a'']"
             "east_record [PStr ''a'']" "[unit_record []]" "[east_record [PStr ''b'']]"]
  from t s have f: "find (\<lambda>sr. is_within_shape within_even_odd (Point (3/2) (1/2)) (sr_shape sr)
                              = Inr True) ?srs = Some (east_record [PStr ''a''])"
    by blast
  from t h e have g: "find_seed within_even_odd (Point (3/2) (1/2)) 3 0
        ([unit_record []] @ east_record [PStr ''a''] # [east_record [PStr ''b'']]) ?st
      = (\<lparr>current_progress = 1, calls = [1]\<rparr>, Inr (Some (east_record [PStr ''a''])))"
    by simp
  from s f h g show ?thesis by blast
qed

lemma find_seed_none:
  "\<forall>sr\<in>set srs. is_within_shape W pt (sr_shape sr) = Inr False \<Longrightarrow>
   snd (find_seed W pt n i srs st) = Inr None"
  by (induction srs arbitrary: i st) auto

lemma find_seed_raises:
  "\<forall>sr\<in>set pre. is_within_shape W pt (sr_shape sr) = Inr False \<Longrightarrow>
   is_within_shape W pt (sr_shape s) = Inl e \<Longrightarrow>
   snd (find_seed W pt n i (pre @ s # post) st) = Inl e"
  by (induction pre arbitrary: i st) auto

text \<open>
  Claim C6, as amended. When \<open>is_within_shape\<close> returns false for every shape record, the
  call raises nothing and returns \<open>None\<close>, or the pair \<open>(None, None)\<close> when an area field
  was requested; the callback receives the value 100 exactly once, as its last value. When the
  test raises on a record and has returned false on every record before it, that exception
  leaves the call.
\<close>

theorem not_found_returns_none:
  "((\<forall>sr\<in>set (rd_records shp). is_within_shape W (Point x y) (sr_shape sr) = Inr False) \<longrightarrow>
      snd (find_basin_adaptado W shp reach_field basin_field x y area_field return_reach)
        = Inr (if area_field = None then Ret_None else Ret_None_None)
      \<and> count_list
          (fst (find_basin_adaptado W shp reach_field basin_field x y area_field return_reach))
          100 = 1
      \<and> last (fst (find_basin_adaptado W shp reach_field basin_field x y area_field return_reach))
          = 100)
   \<and> (rd_records shp = pre @ s # post
       \<and> (\<forall>sr\<in>set pre. is_within_shape W (Point x y) (sr_shape sr) = Inr False)
       \<and> is_within_shape W (Point x y) (sr_shape s) = Inl e \<longrightarrow>
      snd (find_basin_adaptado W shp reach_field basin_field x y area_field return_reach) = Inl e)"
proof (intro conjI impI)
  let ?st0 = "\<lparr>current_progress = 0, calls = []\<rparr>"
  let ?n = "length (rd_records shp)"
  let ?call = "find_basin_adaptado W shp reach_field basin_field x y area_field return_reach"
  obtain st res where r: "find_seed W (Point x y) ?n 0 (rd_records shp) ?st0 = (st, res)"
    by (cases "find_seed W (Point x y) ?n 0 (rd_records shp) ?st0")
  {
    assume a: "\<forall>sr\<in>set (rd_records shp). is_within_shape W (Point x y) (sr_shape sr) = Inr False"
    from find_seed_none [OF a, of ?n 0 ?st0] r have none: "res = Inr None" by simp
    have s0: "sorted_wrt (<) (calls ?st0)" "\<forall>v\<in>set (calls ?st0). v \<le> current_progress ?st0"
      by simp_all
    from find_seed_sorted [OF s0, of W "Point x y" ?n 0 "rd_records shp"] r
    have s2: "\<forall>v\<in>set (calls st). v \<le> current_progress st" by simp
    have "current_progress (fst (find_seed W (Point x y) ?n 0 (rd_records shp) ?st0)) \<le> 50"
      by (rule find_seed_bound) simp_all
    with r have b: "current_progress st \<le> 50" by simp
    have "100 \<notin> set (calls st)" using s2 b by fastforce
    then have c: "count_list (calls st) 100 = 0" by (simp add: count_list_0_iff)
    from r none have res: "?call
        = (calls st @ [100], Inr (if area_field \<noteq> None then Ret_None_None else Ret_None))"
      by (simp add: find_basin_adaptado_def)
    show "snd ?call = Inr (if area_field = None then Ret_None else Ret_None_None)"
      unfolding res by auto
    show "count_list (fst ?call) 100 = 1" unfolding res using c by simp
    show "last (fst ?call) = 100" unfolding res by simp
  }
  {
    assume a: "rd_records shp = pre @ s # post
       \<and> (\<forall>sr\<in>set pre. is_within_shape W (Point x y) (sr_shape sr) = Inr False)
       \<and> is_within_shape W (Point x y) (sr_shape s) = Inl e"
    then have "snd (find_seed W (Point x y) ?n 0 (pre @ s # post) ?st0) = Inl e"
      by (intro find_seed_raises) simp_all
    with a r have "res = Inl e" by simp
    with r show "snd ?call = Inl e" by (simp add: find_basin_adaptado_def)
  }
qed

theorem not_found_returns_none_witness:
  "is_within_shape within_even_odd (Point 5 5)
        (sr_shape (unit_record [PStr ''10'', PStr ''100'', PStr ''1,0''])) = Inr False
   \<and> find_basin_adaptado within_even_odd
        (layer [unit_record [PStr ''10'', PStr ''100'', PStr ''1,0'']])
        ''cocursodag'' ''cobacia'' 5 5 (Some ''nuareacont'') True = ([1, 100], Inr Ret_None_None)
   \<and> is_within_shape within_even_odd (Point 0 0) (sr_shape (single_point_record [])) = Inl ValueError
   \<and> snd (find_basin_adaptado within_even_odd
             (layer [unit_record [PStr ''10'', PStr ''100'', PStr ''1,0''] , single_point_record []])
             ''cocursodag'' ''cobacia'' 0 0 None False) = Inl ValueError"
proof -
  let ?s = "unit_record [PStr ''10'', PStr ''100'', PStr ''1,0'']"
  have o: "is_within_shape within_even_odd (Point 5 5) (sr_shape ?s) = Inr False"
    by (simp add: geo_defs)
  then have h: "\<forall>sr\<in>set (rd_records (layer [?s])).
                  is_within_shape within_even_odd (Point 5 5) (sr_shape sr) = Inr False"
    by (simp add: layer_def)
  have e: "fst (find_basin_adaptado within_even_odd (layer [?s])
                  ''cocursodag'' ''cobacia'' 5 5 (Some ''nuareacont'') True) = [1, 100]"
    by (simp add: str_defs geo_defs run_defs)
  from not_found_returns_none
         [where shp = "layer [?s]" and W = within_even_odd and x = 5 and y = 5
            and reach_field = "''cocursodag''" and basin_field = "''cobacia''"
            and area_field = "Some ''nuareacont''" and return_reach = True]
       h
  have "snd (find_basin_adaptado within_even_odd (layer [?s])
               ''cocursodag'' ''cobacia'' 5 5 (Some ''nuareacont'') True) = Inr Ret_None_None"
    by simp
  with e have c1: "find_basin_adaptado within_even_odd (layer [?s])
        ''cocursodag'' ''cobacia'' 5 5 (Some ''nuareacont'') True = ([1, 100], Inr Ret_None_None)"
    by (simp add: prod_eq_iff)
  have p: "rd_records (layer [?s, single_point_record []]) = [?s] @ single_point_record [] # []"
    by (simp add: layer_def)
  have q: "\<forall>sr\<in>set [?s]. is_within_shape within_even_odd (Point 0 0) (sr_shape sr) = Inr False"
    by (simp add: geo_defs)
  have v: "is_within_shape within_even_odd (Point 0 0) (sr_shape (single_point_record []))
             = Inl ValueError"
    by (simp add: geo_defs)
  from not_found_returns_none
         [where shp = "layer [?s, single_point_record []]" and W = within_even_odd
            and x = 0 and y = 0 and pre = "[?s]" and s = "single_point_record []"
            and post = "[]" and e = ValueError and reach_field = "''cocursodag''"
            and basin_field = "''cobacia''" and area_field = None and return_reach = False]
       p q v
  have c2: "snd (find_basin_adaptado within_even_odd (layer [?s, single_point_record []])
                   ''cocursodag'' ''cobacia'' 0 0 None False) = Inl ValueError"
    by blast
  from o c1 v c2 show ?thesis by blast
qed

text \<open>
  Claim C6 as stated fails on a layer whose only record has a single coordinate as its part and
  on a layer whose only record is a null shape. In both the query point is within no polygon of
  any record: the first record has one ring, which does not contain the point, and the second
  has no part. The first call raises \<open>ValueError\<close>, the second \<open>AttributeError\<close>.
\<close>

theorem not_found_counterexample:
  "part_ring (sr_shape (single_point_record [])) 0 = [(0, 0)]
   \<and> length (parts (sr_shape (single_point_record []))) = 1
   \<and> \<not> within_even_odd (Point 0 0) (Polygon [(0, 0)])
   \<and> find_basin_adaptado within_even_odd (layer [single_point_record []])
        ''cocursodag'' ''cobacia'' 0 0 None False = ([], Inl ValueError)
   \<and> parts (sr_shape (null_record [])) = []
   \<and> find_basin_adaptado within_even_odd (layer [null_record []])
        ''cocursodag'' ''cobacia'' 0 0 None False = ([], Inl AttributeError)"
proof -
  have a: "part_ring (sr_shape (single_point_record [])) 0 = [(0, 0)]"
    by (simp add: geo_defs part_defs upt_rec)
  have b: "length (parts (sr_shape (single_point_record []))) = 1" by (simp add: geo_defs)
  have c: "\<not> within_even_odd (Point 0 0) (Polygon [(0, 0)])" by (simp add: geo_defs)
  have d: "find_basin_adaptado within_even_odd (layer [single_point_record []])
        ''cocursodag'' ''cobacia'' 0 0 None False = ([], Inl ValueError)"
    by (simp add: geo_defs run_defs)
  have e: "parts (sr_shape (null_record [])) = []" by (simp add: geo_defs)
  have f: "find_basin_adaptado within_even_odd (layer [null_record []])
        ''cocursodag'' ''cobacia'' 0 0 None False = ([], Inl AttributeError)"
    by (simp add: geo_defs run_defs)
  from a b c d e f show ?thesis by blast
qed

subsection \<open>The matcher\<close>

lemma seed_of_facts:
  assumes "seed_of fn rf bf af s = Inr sd"
  shows "index_of fn rf = Inr (reach_index sd)"
    and "index_of fn bf = Inr (basin_index sd)"
    and "item (sr_record s) (reach_index sd) = Inr (selected_reach sd)"
    and "\<exists>v. item (sr_record s) (basin_index sd) = Inr v
             \<and> int_of_val v = Inr (selected_basin_int sd)
             \<and> len_of_val v = Inr (selected_basin_length sd)"
    and "af = None \<Longrightarrow> area_index sd = None"
  using assms
  by (auto simp: seed_of_def bindE_def split: sum.splits option.splits)

lemma normalize_as_specified: "ljust0 (take L b) L = spec_normalize b L"
  by (simp add: ljust0_def spec_normalize_def min_def)

text \<open>
  Claim C3. Let the seed have the reach code \<open>R\<close> and the basin code \<open>B\<close>, and let a
  candidate record carry the strings \<open>reach\<close> and \<open>basin\<close>. The second loop takes the
  candidate exactly when \<open>reach\<close> starts with \<open>R\<close> and the basin code, cut to its first
  \<open>len(B)\<close> characters and padded on the right with \<open>0\<close> to that length, reads as an
  integer greater than or equal to \<open>int(B)\<close>.
\<close>

theorem matches_iff:
  assumes "seed_of fn rf bf af s = Inr sd"
    and "item (sr_record s) (reach_index sd) = Inr (PStr R)"
    and "item (sr_record s) (basin_index sd) = Inr (PStr B)"
    and "item rec (reach_index sd) = Inr (PStr reach)"
    and "item rec (basin_index sd) = Inr (PStr basin)"
  shows "matches sd rec = Inr True \<longleftrightarrow>
           prefix R reach \<and>
           (\<exists>c b. py_int (spec_normalize basin (length B)) = Some c \<and> py_int B = Some b \<and> c \<ge> b)"
proof -
  from seed_of_facts(3) [OF assms(1)] assms(2) have sr: "selected_reach sd = PStr R" by simp
  from seed_of_facts(4) [OF assms(1)] assms(3)
  have "int_of_val (PStr B) = Inr (selected_basin_int sd)"
    and sl: "selected_basin_length sd = length B"
    by auto
  then have sb: "py_int B = Some (selected_basin_int sd)"
    by (simp split: option.splits)
  show ?thesis
    using assms(4,5) sr sl sb
    by (auto simp: matches_def bindE_def normalize_as_specified split: option.splits)
qed


theorem matches_iff_witness:
  "matches \<lparr>reach_index = 0, basin_index = 1, area_index = None, selected_reach = PStr ''10'',
             selected_basin_int = 100, selected_basin_length = 3\<rparr>
           [PStr ''101'', PStr ''2'', PStr ''abc''] = Inr True
   \<and> prefix ''10'' ''101''
   \<and> py_int (spec_normalize ''2'' (length ''100'')) = Some 200
   \<and> py_int ''100'' = Some 100"
proof -
  let ?sd = "\<lparr>reach_index = 0, basin_index = 1, area_index = None, selected_reach = PStr ''10'',
              selected_basin_int = 100, selected_basin_length = 3\<rparr>"
  let ?s = "unit_record [PStr ''10'', PStr ''100'', PStr ''1,0'']"
  let ?rec = "[PStr ''101'', PStr ''2'', PStr ''abc'']"
  have h1: "seed_of (drop 1 layer_fields) ''cocursodag'' ''cobacia'' None ?s = Inr ?sd"
    by (simp add: str_defs geo_defs run_defs)
  have h2: "item (sr_record ?s) (reach_index ?sd) = Inr (PStr ''10'')"
    by (simp add: geo_defs item_def)
  have h3: "item (sr_record ?s) (basin_index ?sd) = Inr (PStr ''100'')"
    by (simp add: geo_defs item_def)
  have h4: "item ?rec (reach_index ?sd) = Inr (PStr ''101'')"
    by (simp add: item_def)
  have h5: "item ?rec (basin_index ?sd) = Inr (PStr ''2'')"
    by (simp add: item_def)
  have p: "prefix ''10'' ''101''" by simp
  have c: "py_int (spec_normalize ''2'' (length ''100'')) = Some 200"
    by (simp add: spec_normalize_def str_defs)
  have b: "py_int ''100'' = Some 100"
    by (simp add: str_defs)
  from matches_iff [OF h1 h2 h3 h4 h5] p c b show ?thesis by simp
qed

subsection \<open>Area values\<close>

text \<open>
  The area statement on one value: the string \<open>12,5\<close> adds 12.5, a float is added as it is,
  and a string that \<open>float\<close> does not accept after its commas are replaced raises
  \<open>ValueError\<close>.
\<close>

lemma add_area_unparseable:
  "item rec ai = Inr (PStr s) \<Longrightarrow> py_float (replace_comma s) = None
   \<Longrightarrow> add_area area rec ai = Inl ValueError"
  by (simp add: add_area_def)

lemma add_area_comma_decimal:
  "item rec ai = Inr (PStr ''12,5'') \<Longrightarrow> add_area area rec ai = Inr (fadd area (Fin 12.5))"
  by (simp add: add_area_def str_defs)

lemma add_area_float:
  "item rec ai = Inr (PFloat f) \<Longrightarrow> add_area area rec ai = Inr (fadd area f)"
  by (simp add: add_area_def)

text \<open>
  Claim C8, at a layer of two records: the unit square with the area \<open>1,0\<close>, which contains
  the query point, and a null shape with the area \<open>abc\<close>, whose codes match the seed. The
  second record is matched and has no polygon, so the area statement, which stands inside the
  loop over the polygons, is not reached for it: the call raises nothing and returns the area 1
  of the first record alone.
\<close>

theorem unparseable_area_of_record_without_parts:
  "find_basin_adaptado within_even_odd
     (layer [unit_record [PStr ''10'', PStr ''100'', PStr ''1,0''],
             null_record [PStr ''101'', PStr ''2'', PStr ''abc'']])
     ''cocursodag'' ''cobacia'' (1/2) (1/2) (Some ''nuareacont'') False
   = ([1, 2], Inr (Ret_Union_Area (CascadedUnion [Buffer (Polygon (square_ring 0 0)) 0]) (Fin 1)))"
  by (simp add: str_defs geo_defs run_defs replicate_numeral)

subsection \<open>Calls without an area field\<close>

lemma index_of_nth: "index_of xs v = Inr i \<Longrightarrow> i < length xs \<and> xs ! i = v"
  by (induction xs arbitrary: i) (auto split: if_splits sum.splits)

lemma index_of_distinct:
  assumes "index_of xs a = Inr k" and "index_of xs b = Inr i" and "a \<noteq> b"
  shows "i \<noteq> k"
  using index_of_nth [OF assms(1)] index_of_nth [OF assms(2)] assms(3) by auto

lemma item_update_other: "i \<noteq> k \<Longrightarrow> item (xs[k := v]) i = item xs i"
  by (simp add: item_def)

lemma matches_update_other:
  "reach_index sd \<noteq> k \<Longrightarrow> basin_index sd \<noteq> k \<Longrightarrow> matches sd (rec[k := v]) = matches sd rec"
  by (simp add: matches_def item_update_other cong: if_cong)

lemma add_parts_without_area: "add_parts None rec polys acc = add_parts None rec' polys acc"
proof (induction polys arbitrary: acc)
  case Nil
  show ?case by simp
next
  case (Cons poly polys)
  obtain bp area where "acc = (bp, area)" by (cases acc)
  with Cons.IH show ?case by (cases poly) simp_all
qed

lemma visit_update_other:
  assumes "area_index sd = None" and "reach_index sd \<noteq> k" and "basin_index sd \<noteq> k"
  shows "visit sd (sr\<lparr>sr_record := (sr_record sr)[k := v]\<rparr>) acc = visit sd sr acc"
  using assms add_parts_without_area [of "(sr_record sr)[k := v]" _ acc "sr_record sr"]
  by (simp add: visit_def matches_update_other cong: if_cong)

lemma aggregate_update_other:
  assumes "area_index sd = None" and "reach_index sd \<noteq> k" and "basin_index sd \<noteq> k"
  shows "length vs = length srs \<Longrightarrow>
         aggregate sd n i (map2 (\<lambda>sr v. sr\<lparr>sr_record := (sr_record sr)[k := v]\<rparr>) srs vs) acc st
           = aggregate sd n i srs acc st"
proof (induction srs arbitrary: vs i acc st)
  case Nil
  then show ?case by simp
next
  case (Cons sr srs)
  then obtain v vs' where vs: "vs = v # vs'" and l: "length vs' = length srs"
    by (cases vs) auto
  show ?case
    unfolding vs using Cons.IH [OF l] visit_update_other [OF assms]
    by (simp split: sum.splits)
qed

lemma find_seed_update:
  "length vs = length srs \<Longrightarrow>
   fst (find_seed W pt n i (map2 (\<lambda>sr v. sr\<lparr>sr_record := (sr_record sr)[k := v]\<rparr>) srs vs) st)
     = fst (find_seed W pt n i srs st)
   \<and> (\<forall>e. snd (find_seed W pt n i srs st) = Inl e \<longrightarrow>
        snd (find_seed W pt n i (map2 (\<lambda>sr v. sr\<lparr>sr_record := (sr_record sr)[k := v]\<rparr>) srs vs) st)
          = Inl e)
   \<and> (snd (find_seed W pt n i srs st) = Inr None \<longrightarrow>
        snd (find_seed W pt n i (map2 (\<lambda>sr v. sr\<lparr>sr_record := (sr_record sr)[k := v]\<rparr>) srs vs) st)
          = Inr None)
   \<and> (\<forall>s. snd (find_seed W pt n i srs st) = Inr (Some s) \<longrightarrow>
        (\<exists>v. snd (find_seed W pt n i (map2 (\<lambda>sr v. sr\<lparr>sr_record := (sr_record sr)[k := v]\<rparr>) srs vs) st)
               = Inr (Some (s\<lparr>sr_record := (sr_record s)[k := v]\<rparr>))))"
proof (induction srs arbitrary: vs i st)
  case Nil
  then show ?case by simp
next
  case (Cons sr srs)
  then obtain v vs' where vs: "vs = v # vs'" and l: "length vs' = length srs"
    by (cases vs) auto
  show ?case
  proof (cases "is_within_shape W pt (sr_shape sr)")
    case (Inl e)
    then show ?thesis unfolding vs by simp
  next
    case (Inr inside)
    show ?thesis
    proof (cases inside)
      case True
      with Inr show ?thesis unfolding vs by auto
    next
      case False
      with Inr show ?thesis unfolding vs using Cons.IH [OF l] by simp
    qed
  qed
qed

lemma seed_of_update_other:
  assumes "index_of fn af = Inr k" and "af \<noteq> rf" and "af \<noteq> bf"
  shows "seed_of fn rf bf None (s\<lparr>sr_record := (sr_record s)[k := v]\<rparr>) = seed_of fn rf bf None s"
proof (cases "index_of fn rf")
  case (Inl e)
  then show ?thesis by (simp add: seed_of_def bindE_def)
next
  case ri: (Inr ri)
  show ?thesis
  proof (cases "index_of fn bf")
    case (Inl e)
    with ri show ?thesis by (simp add: seed_of_def bindE_def)
  next
    case bi: (Inr bi)
    from index_of_distinct [OF assms(1) ri assms(2)] have "ri \<noteq> k" .
    moreover from index_of_distinct [OF assms(1) bi assms(3)] have "bi \<noteq> k" .
    ultimately show ?thesis using ri bi
      by (simp add: seed_of_def bindE_def item_update_other split: sum.splits)
  qed
qed

text \<open>
  Claim C10. Without an area field (\<open>area_field\<close> is \<open>None\<close>) the call does not read the
  area attribute of any record. Let \<open>af\<close> name a field other than the reach and the basin
  field, at position \<open>k\<close> of the field list: two layers that differ only in the values at
  position \<open>k\<close> of their records, whatever these values are, give the same callback values and
  the same outcome, so no value of that attribute makes a call fail.
\<close>

theorem area_not_read_without_area_field:
  assumes "index_of (drop 1 (rd_fields shp)) af = Inr k"
    and "af \<noteq> reach_field" and "af \<noteq> basin_field"
    and "length vs = length (rd_records shp)"
  shows "find_basin_adaptado W
           (shp\<lparr>rd_records := map2 (\<lambda>sr v. sr\<lparr>sr_record := (sr_record sr)[k := v]\<rparr>)
                                    (rd_records shp) vs\<rparr>)
           reach_field basin_field x y None return_reach
         = find_basin_adaptado W shp reach_field basin_field x y None return_reach"
proof -
  let ?st0 = "\<lparr>current_progress = 0, calls = []\<rparr>"
  let ?n = "length (rd_records shp)"
  let ?srs' = "map2 (\<lambda>sr v. sr\<lparr>sr_record := (sr_record sr)[k := v]\<rparr>) (rd_records shp) vs"
  let ?fn = "drop 1 (rd_fields shp)"
  have n: "length ?srs' = ?n" using assms(4) by simp
  obtain st res where r: "find_seed W (Point x y) ?n 0 (rd_records shp) ?st0 = (st, res)"
    by (cases "find_seed W (Point x y) ?n 0 (rd_records shp) ?st0")
  note u = find_seed_update [OF assms(4), where W = W and pt = "Point x y" and n = ?n and i = 0
                               and st = ?st0 and k = k]
  from u r have f: "fst (find_seed W (Point x y) ?n 0 ?srs' ?st0) = st" by simp
  show ?thesis
  proof (cases res)
    case (Inl e)
    with u r have "snd (find_seed W (Point x y) ?n 0 ?srs' ?st0) = Inl e" by simp
    with f have "find_seed W (Point x y) ?n 0 ?srs' ?st0 = (st, Inl e)"
      by (simp add: prod_eq_iff)
    with r Inl n show ?thesis by (simp add: find_basin_adaptado_def)
  next
    case found: (Inr found)
    show ?thesis
    proof (cases found)
      case None
      with u r found have "snd (find_seed W (Point x y) ?n 0 ?srs' ?st0) = Inr None" by simp
      with f have "find_seed W (Point x y) ?n 0 ?srs' ?st0 = (st, Inr None)"
        by (simp add: prod_eq_iff)
      with r found None n show ?thesis by (simp add: find_basin_adaptado_def)
    next
      case (Some s)
      with u r found obtain v where
        "snd (find_seed W (Point x y) ?n 0 ?srs' ?st0)
           = Inr (Some (s\<lparr>sr_record := (sr_record s)[k := v]\<rparr>))"
        by auto
      with f have
        r': "find_seed W (Point x y) ?n 0 ?srs' ?st0
               = (st, Inr (Some (s\<lparr>sr_record := (sr_record s)[k := v]\<rparr>)))"
        by (simp add: prod_eq_iff)
      have so: "seed_of ?fn reach_field basin_field None (s\<lparr>sr_record := (sr_record s)[k := v]\<rparr>)
                  = seed_of ?fn reach_field basin_field None s"
        by (rule seed_of_update_other [OF assms(1,2,3)])
      show ?thesis
      proof (cases "seed_of ?fn reach_field basin_field None s")
        case (Inl e)
        with r r' found Some so n show ?thesis by (simp add: find_basin_adaptado_def)
      next
        case (Inr sd)
        from seed_of_facts [OF Inr]
        have ri: "index_of ?fn reach_field = Inr (reach_index sd)"
          and bi: "index_of ?fn basin_field = Inr (basin_index sd)"
          and ai: "area_index sd = None"
          by simp_all
        from index_of_distinct [OF assms(1) ri assms(2)] have rk: "reach_index sd \<noteq> k" .
        from index_of_distinct [OF assms(1) bi assms(3)] have bk: "basin_index sd \<noteq> k" .
        from aggregate_update_other [OF ai rk bk assms(4)]
        have "aggregate sd ?n 0 ?srs' ([], Fin 0) st
                = aggregate sd ?n 0 (rd_records shp) ([], Fin 0) st" .
        with r r' found Some so Inr n show ?thesis by (simp add: find_basin_adaptado_def)
      qed
    qed
  qed
qed

theorem area_not_read_without_area_field_witness:
  "index_of (drop 1 (rd_fields (layer [unit_record [PStr ''10'', PStr ''100'', PStr ''1,0''],
                                        east_record [PStr ''101'', PStr ''2'', PStr ''5,0'']])))
            ''nuareacont'' = Inr 2
   \<and> find_basin_adaptado within_even_odd
        (layer [unit_record [PStr ''10'', PStr ''100'', PStr ''abc''],
                east_record [PStr ''101'', PStr ''2'', PNone]])
        ''cocursodag'' ''cobacia'' (1/2) (1/2) None False
      = find_basin_adaptado within_even_odd
          (layer [unit_record [PStr ''10'', PStr ''100'', PStr ''1,0''],
                  east_record [PStr ''101'', PStr ''2'', PStr ''5,0'']])
          ''cocursodag'' ''cobacia'' (1/2) (1/2) None False"
proof -
  let ?shp = "layer [unit_record [PStr ''10'', PStr ''100'', PStr ''1,0''],
                     east_record [PStr ''101'', PStr ''2'', PStr ''5,0'']]"
  have h1: "index_of (drop 1 (rd_fields ?shp)) ''nuareacont'' = Inr 2"
    by (simp add: geo_defs)
  have h2: "''nuareacont'' \<noteq> ''cocursodag''" by simp
  have h3: "''nuareacont'' \<noteq> ''cobacia''" by simp
  have h4: "length [PStr ''abc'', PNone] = length (rd_records ?shp)"
    by (simp add: layer_def)
  have e: "?shp\<lparr>rd_records := map2 (\<lambda>sr v. sr\<lparr>sr_record := (sr_record sr)[2 := v]\<rparr>)
                                   (rd_records ?shp) [PStr ''abc'', PNone]\<rparr>
           = layer [unit_record [PStr ''10'', PStr ''100'', PStr ''abc''],
                    east_record [PStr ''101'', PStr ''2'', PNone]]"
    by (simp add: geo_defs)
  from area_not_read_without_area_field [OF h1 h2 h3 h4, of within_even_odd "1/2" "1/2" False] h1
  show ?thesis unfolding e by simp
qed

subsection \<open>Three calls on small layers\<close>

text \<open>
  Claim C1, at a layer of one record with two parts and the area \<open>1,0\<close>, the query point in
  its first part. The record is the seed and the only match; the call returns the area 2: the
  area of the record is added once for each of its two polygons.
\<close>

theorem area_added_for_each_part:
  "find_basin_adaptado within_even_odd
     (layer [two_part_record [PStr ''10'', PStr ''100'', PStr ''1,0'']])
     ''cocursodag'' ''cobacia'' (1/2) (1/2) (Some ''nuareacont'') False
   = ([1], Inr (Ret_Union_Area
                  (CascadedUnion [Buffer (Polygon (square_ring 0 0)) 0,
                                  Buffer (Polygon (square_ring 2 0)) 0])
                  (Fin 2)))"
  by (simp add: str_defs geo_defs run_defs)

text \<open>
  Claim C2, at a layer of one record that contains the query point. The seed is found, the second
  loop computes the progress 100 for its only record and advances the counter by one: the callback
  is called once, with 1.
\<close>

theorem last_progress_of_single_record:
  "fst (find_basin_adaptado within_even_odd
          (layer [unit_record [PStr ''10'', PStr ''100'', PStr ''1,0'']])
          ''cocursodag'' ''cobacia'' (1/2) (1/2) None False) = [1]"
  by (simp add: str_defs geo_defs run_defs)

text \<open>
  Claim C9, at a call with \<open>return_reach\<close> true and no area field, on a layer of one record
  that contains the query point. The seed is found; the call returns the union alone, without
  the reach code of the seed.
\<close>

theorem reach_dropped_without_area_field:
  "snd (find_basin_adaptado within_even_odd
          (layer [unit_record [PStr ''10'', PStr ''100'', PStr ''1,0'']])
          ''cocursodag'' ''cobacia'' (1/2) (1/2) None True)
   = Inr (Ret_Union (CascadedUnion [Buffer (Polygon (square_ring 0 0)) 0]))"
  by (simp add: str_defs geo_defs run_defs)


end
